theory Spec2Isabelle
  imports Main
begin

section \<open>The preprocessor that reads the preamble\<close>

text \<open>
  The repository is one header, \<^verbatim>\<open>rainmeter-sys/native/wrapper.h\<close>. It has no run-time
  code: all it does happens in the preprocessor, so the embedding is a small preprocessor
  (translation phase 4) and the header as the list of its lines. Comments are replaced by
  white space before directives are executed, so a comment line carries no text here and
  the comments that end lines 18 and 19 are dropped.
\<close>

type_synonym macro_table = "string \<rightharpoonup> string"

datatype include_form = Angle | Quote

datatype line =
    Comment
  | Blank
  | Pragma_once
  | Define string string
  | Undef string
  | Ifdef string
  | Ifndef string
  | Else
  | Endif
  | Include include_form string
  | Text string

text \<open>
  A macro defined again with another replacement list is diagnosed and the new definition
  replaces the old one. The fatal errors stop the translation.
\<close>

datatype diagnostic = Redefined string

datatype fatal =
    Cannot_open string
  | Include_too_deep string
  | Else_without_if
  | Else_after_else
  | Endif_without_if
  | Unterminated_if

text \<open>
  What reaches the compiler: the text lines passed through, and the contents of each header
  that lies outside the repository, together with the macro table it was read under.
\<close>

datatype item = Passed string | Header string macro_table

text \<open>
  A file is either source that the preprocessor reads line by line, or a header outside
  the repository (\<^verbatim>\<open>Windows.h\<close>, \<^verbatim>\<open>sdk/API/RainmeterAPI.h\<close>), which is a parameter: all
  that is known of it is that it maps the macro table it is read under to a new one.
\<close>

datatype file_content = Source "line list" | External "macro_table \<Rightarrow> macro_table"

record pstate =
  macros :: macro_table
  once :: "string set"
  out :: "item list"
  diags :: "diagnostic list"

definition define_macro :: "string \<Rightarrow> string \<Rightarrow> pstate \<Rightarrow> pstate" where
  "define_macro x b st =
     st\<lparr>macros := (macros st)(x \<mapsto> b),
        diags := (case macros st x of
                    None \<Rightarrow> diags st
                  | Some b' \<Rightarrow> if b' = b then diags st else diags st @ [Redefined x])\<rparr>"

definition undef_macro :: "string \<Rightarrow> pstate \<Rightarrow> pstate" where
  "undef_macro x st = st\<lparr>macros := (macros st)(x := None)\<rparr>"

text \<open>
  The conditional stack of the file being read: for each open group, whether its lines are
  taken and whether its \<^verbatim>\<open>#else\<close> has been seen. A line is executed when every open
  group is taken.
\<close>

definition active :: "(bool \<times> bool) list \<Rightarrow> bool" where
  "active cs = list_all fst cs"

text \<open>
  \<open>exec fs n cur ls cs st\<close> reads the lines \<open>ls\<close> of the file \<open>cur\<close> under the conditional
  stack \<open>cs\<close>; \<open>n\<close> is the number of further levels of source inclusion the
  implementation allows. \<^verbatim>\<open>#pragma once\<close> records the file under the name it was
  included by, and a recorded source file is not read again.
\<close>

fun exec :: "(string \<rightharpoonup> file_content) \<Rightarrow> nat \<Rightarrow> string \<Rightarrow> line list \<Rightarrow> (bool \<times> bool) list
    \<Rightarrow> pstate \<Rightarrow> fatal + pstate" where
  "exec fs n cur [] cs st = (if cs = [] then Inr st else Inl Unterminated_if)"
| "exec fs n cur (Comment # ls) cs st = exec fs n cur ls cs st"
| "exec fs n cur (Blank # ls) cs st = exec fs n cur ls cs st"
| "exec fs n cur (Pragma_once # ls) cs st =
     exec fs n cur ls cs (if active cs then st\<lparr>once := insert cur (once st)\<rparr> else st)"
| "exec fs n cur (Define x b # ls) cs st =
     exec fs n cur ls cs (if active cs then define_macro x b st else st)"
| "exec fs n cur (Undef x # ls) cs st =
     exec fs n cur ls cs (if active cs then undef_macro x st else st)"
| "exec fs n cur (Ifdef x # ls) cs st =
     exec fs n cur ls ((macros st x \<noteq> None, False) # cs) st"
| "exec fs n cur (Ifndef x # ls) cs st =
     exec fs n cur ls ((macros st x = None, False) # cs) st"
| "exec fs n cur (Else # ls) cs st =
     (case cs of
        [] \<Rightarrow> Inl Else_without_if
      | (b, e) # cs' \<Rightarrow>
          if e then Inl Else_after_else else exec fs n cur ls ((\<not> b, True) # cs') st)"
| "exec fs n cur (Endif # ls) cs st =
     (case cs of
        [] \<Rightarrow> Inl Endif_without_if
      | c # cs' \<Rightarrow> exec fs n cur ls cs' st)"
| "exec fs n cur (Text s # ls) cs st =
     exec fs n cur ls cs (if active cs then st\<lparr>out := out st @ [Passed s]\<rparr> else st)"
| "exec fs n cur (Include k f # ls) cs st =
     (if \<not> active cs then exec fs n cur ls cs st
      else case fs f of
        None \<Rightarrow> Inl (Cannot_open f)
      | Some (External h) \<Rightarrow>
          exec fs n cur ls cs
            (st\<lparr>macros := h (macros st), out := out st @ [Header f (macros st)]\<rparr>)
      | Some (Source body) \<Rightarrow>
          if f \<in> once st then exec fs n cur ls cs st
          else (case n of
                  0 \<Rightarrow> Inl (Include_too_deep f)
                | Suc m \<Rightarrow>
                    (case exec fs m f body [] st of
                       Inl e \<Rightarrow> Inl e
                     | Inr st' \<Rightarrow> exec fs n cur ls cs st')))"

section \<open>The preamble\<close>

text \<open>The nineteen lines of \<^verbatim>\<open>wrapper.h\<close>, one element for each line.\<close>

definition wrapper_h :: "line list" where
  "wrapper_h =
    [Comment,
     Pragma_once,
     Blank,
     Comment,
     Define ''LIBRARY_EXPORTS'' '''',
     Blank,
     Comment,
     Ifndef ''UNICODE'',
     Define ''UNICODE'' '''',
     Endif,
     Ifndef ''_UNICODE'',
     Define ''_UNICODE'' '''',
     Endif,
     Blank,
     Comment,
     Define ''WIN32_LEAN_AND_MEAN'' '''',
     Blank,
     Include Angle ''Windows.h'',
     Include Quote ''sdk/API/RainmeterAPI.h'']"

section \<open>The headers outside the repository\<close>

text \<open>
  Modelled from the spec: the vendor plugin interface header \<^verbatim>\<open>sdk/API/RainmeterAPI.h\<close>
  is not part of the sources. The spec says its declarations are conditioned by the
  export/import macro: read with the export macro defined they are marked for export from
  the dynamic library, otherwise for import into it.
\<close>

datatype linkage = Export | Import

definition vendor_linkage :: "macro_table \<Rightarrow> linkage" where
  \<comment> \<open>Modelled from the spec: the annotation of the vendor header's declarations.\<close>
  "vendor_linkage m = (if m ''LIBRARY_EXPORTS'' \<noteq> None then Export else Import)"

text \<open>
  Modelled from the spec: the platform system header \<^verbatim>\<open>Windows.h\<close> is not part of the
  sources. The spec says that a translation unit receives a reduced platform header surface
  instead of the full one when the preamble has asked for it, which it does with the
  lean-header macro.
\<close>

datatype surface = Reduced | Full

definition platform_surface :: "macro_table \<Rightarrow> surface" where
  \<comment> \<open>Modelled from the spec: the surface the platform header exposes.\<close>
  "platform_surface m = (if m ''WIN32_LEAN_AND_MEAN'' \<noteq> None then Reduced else Full)"

text \<open>
  Modelled from the spec: the platform header binds each entry point under its unprefixed
  name to the wide-character variant (suffix W) when the pair of character-set selection
  macros is defined, and to the 8-bit variant (suffix A) otherwise.
\<close>

definition entry_point :: "macro_table \<Rightarrow> string \<Rightarrow> string" where
  \<comment> \<open>Modelled from the spec: the entry point an unprefixed name is bound to.\<close>
  "entry_point m name =
     (if m ''UNICODE'' \<noteq> None \<and> m ''_UNICODE'' \<noteq> None then name @ ''W'' else name @ ''A'')"

section \<open>An example build\<close>

text \<open>
  Concrete inputs on which the theorems below are instantiated: two external headers that
  each define their include guard, a helper header that includes the preamble, a state in
  which nothing is defined, and a state in which the including code has defined all four
  macros as \<^verbatim>\<open>1\<close>.
\<close>

definition example_windows :: "macro_table \<Rightarrow> macro_table" where
  "example_windows m = m(''_WINDOWS_'' \<mapsto> '''')"

definition example_sdk :: "macro_table \<Rightarrow> macro_table" where
  "example_sdk m = m(''__RAINMETERAPI_H__'' \<mapsto> '''')"

definition example_fs :: "string \<rightharpoonup> file_content" where
  "example_fs =
     [''wrapper.h'' \<mapsto> Source wrapper_h,
      ''Windows.h'' \<mapsto> External example_windows,
      ''sdk/API/RainmeterAPI.h'' \<mapsto> External example_sdk,
      ''util.h'' \<mapsto> Source [Include Quote ''wrapper.h'', Text ''int helper(void);'']]"

definition clean_state :: pstate where
  "clean_state = \<lparr>macros = Map.empty, once = {}, out = [], diags = []\<rparr>"

definition predefined_state :: pstate where
  "predefined_state =
     \<lparr>macros = [''LIBRARY_EXPORTS'' \<mapsto> ''1'', ''UNICODE'' \<mapsto> ''1'', ''_UNICODE'' \<mapsto> ''1'',
                 ''WIN32_LEAN_AND_MEAN'' \<mapsto> ''1''],
      once = {}, out = [], diags = []\<rparr>"

section \<open>Properties of the preprocessor\<close>

lemma once_define_macro: "once (define_macro x b st) = once st"
  by (simp add: define_macro_def)

lemma once_undef_macro: "once (undef_macro x st) = once st"
  by (simp add: undef_macro_def)

lemma exec_done: "exec fs n cur [] [] st = Inr st"
  by simp

text \<open>A file that has been recorded by \<^verbatim>\<open>#pragma once\<close> stays recorded.\<close>

lemma once_mono:
  "exec fs n cur ls cs st = Inr st' \<Longrightarrow> once st \<subseteq> once st'"
proof (induction fs n cur ls cs st arbitrary: st' rule: exec.induct)
  case (12 fs n cur k f ls cs st)
  show ?case
  proof (cases "active cs")
    case False
    with 12 show ?thesis by simp
  next
    case act: True
    show ?thesis
    proof (cases "fs f")
      case None
      with act 12 show ?thesis by simp
    next
      case (Some c)
      show ?thesis
      proof (cases c)
        case (External h)
        with Some act 12 show ?thesis by fastforce
      next
        case (Source body)
        show ?thesis
        proof (cases "f \<in> once st")
          case True
          with Source Some act 12 show ?thesis by simp
        next
          case notin: False
          show ?thesis
          proof (cases n)
            case 0
            with notin Source Some act "12.prems" show ?thesis by simp
          next
            case (Suc m)
            with notin Source Some act "12.prems" obtain st1 where
              a: "exec fs m f body [] st = Inr st1" and b: "exec fs n cur ls cs st1 = Inr st'"
              by (auto split: sum.splits)
            from act have nn: "\<not> \<not> active cs" by simp
            have "once st \<subseteq> once st1"
              by (rule "12.IH"(3)[OF nn Some Source notin Suc a])
            moreover have "once st1 \<subseteq> once st'"
              by (rule "12.IH"(4)[OF nn Some Source notin Suc a b])
            ultimately show ?thesis by (rule subset_trans)
          qed
        qed
      qed
    qed
  qed
next
  case (9 fs n cur ls cs st)
  show ?case
  proof (cases cs)
    case Nil
    with "9.prems" show ?thesis by simp
  next
    case (Cons c cs')
    obtain b e where c: "c = (b, e)" by (cases c)
    show ?thesis
    proof (cases e)
      case True
      with "9.prems" Cons c show ?thesis by simp
    next
      case False
      with "9.prems" Cons c have r: "exec fs n cur ls ((\<not> b, True) # cs') st = Inr st'"
        by simp
      show ?thesis
        by (rule "9.IH"[OF Cons c[symmetric] False r])
    qed
  qed
qed (auto simp: once_define_macro once_undef_macro split: if_splits list.splits)

text \<open>
  Once a source file is recorded, a later inclusion of it can be deleted from the lines
  being read without changing the result.
\<close>

lemma skip_recorded_include:
  assumes src: "fs w = Some (Source b)"
  shows "w \<in> once st \<Longrightarrow>
    exec fs n cur (xs @ Include k w # ys) cs st = exec fs n cur (xs @ ys) cs st"
proof (induction xs arbitrary: cs st)
  case Nil
  with src show ?case by simp
next
  case (Cons x xs)
  show ?case
  proof (cases x)
    case (Include k' f)
    show ?thesis
    proof (cases "fs f")
      case None
      with Include show ?thesis by (simp add: Cons)
    next
      case (Some c)
      show ?thesis
      proof (cases c)
        case (External h)
        with Some Include Cons show ?thesis by simp
      next
        case (Source body)
        show ?thesis
        proof (cases n)
          case 0
          with Source Some Include Cons show ?thesis by simp
        next
          case (Suc m)
          have "exec fs n cur (xs @ Include k w # ys) cs st1 = exec fs n cur (xs @ ys) cs st1"
            if "exec fs m f body [] st = Inr st1" for st1
          proof -
            from once_mono[OF that] Cons.prems have "w \<in> once st1" by blast
            then show ?thesis by (rule Cons.IH)
          qed
          with Suc Source Some Include Cons show ?thesis
            by (simp split: sum.splits)
        qed
      qed
    qed
  next
    case Else
    with Cons show ?thesis by (simp split: list.splits)
  next
    case Endif
    with Cons show ?thesis by (simp split: list.splits)
  qed (simp_all add: Cons once_define_macro once_undef_macro)
qed

text \<open>The same for an inclusion that sits in another source file.\<close>

lemma skip_recorded_in_file:
  assumes "fs g = Some (Source (xs @ Include k w # ys))"
    and "fs' = fs(g \<mapsto> Source (xs @ ys))"
    and "fs w = Some (Source b)"
    and "w \<in> once st"
  shows "exec fs n cur ls cs st = exec fs' n cur ls cs st"
  using assms
proof (induction fs n cur ls cs st rule: exec.induct)
  case (12 fs n cur k' f ls cs st)
  note g = "12.prems"(1) and upd = "12.prems"(2) and w = "12.prems"(3) and rec = "12.prems"(4)
  have other: "fs' a = fs a" if "a \<noteq> g" for a
    using that by (simp add: upd)
  have at_g: "fs' g = Some (Source (xs @ ys))"
    by (simp add: upd)
  have w': "\<exists>b'. fs' w = Some (Source b')"
    using w by (simp add: upd)
  show ?case
  proof (cases "active cs")
    case False
    with "12.IH"(1)[OF _ g upd w rec] show ?thesis by simp
  next
    case act: True
    then have nn: "\<not> \<not> active cs" by simp
    show ?thesis
    proof (cases "fs f")
      case None
      with g have "f \<noteq> g" by auto
      with None act other show ?thesis by simp
    next
      case (Some c)
      show ?thesis
      proof (cases c)
        case (External h)
        with Some g have ne: "f \<noteq> g" by auto
        from rec have "w \<in> once (st\<lparr>macros := h (macros st), out := out st @ [Header f (macros st)]\<rparr>)"
          by simp
        from "12.IH"(5)[OF nn Some External g upd w this] other[OF ne] Some External act
        show ?thesis by simp
      next
        case (Source body)
        define body' where "body' = (if f = g then xs @ ys else body)"
        have fs'f: "fs' f = Some (Source body')"
          using Some Source other at_g by (simp add: body'_def)
        show ?thesis
        proof (cases "f \<in> once st")
          case True
          from "12.IH"(2)[OF nn Some Source True g upd w rec] True Some Source fs'f act
          show ?thesis by simp
        next
          case notin: False
          show ?thesis
          proof (cases n)
            case 0
            with notin Some Source fs'f act show ?thesis by simp
          next
            case (Suc m)
            have inner: "exec fs m f body [] st = exec fs' m f body' [] st"
            proof -
              have "exec fs m f body [] st = exec fs' m f body [] st"
                by (rule "12.IH"(3)[OF nn Some Source notin Suc g upd w rec])
              also have "\<dots> = exec fs' m f body' [] st"
              proof (cases "f = g")
                case True
                with g Some Source have "body = xs @ Include k w # ys" by simp
                moreover from w' obtain b' where "fs' w = Some (Source b')" by blast
                from skip_recorded_include[where fs = fs' and w = w, OF this rec]
                have "exec fs' m f (xs @ Include k w # ys) [] st = exec fs' m f (xs @ ys) [] st" .
                ultimately show ?thesis using True by (simp add: body'_def)
              next
                case False
                then show ?thesis by (simp add: body'_def)
              qed
              finally show ?thesis .
            qed
            have outer: "exec fs n cur ls cs st1 = exec fs' n cur ls cs st1"
              if r: "exec fs m f body [] st = Inr st1" for st1
            proof -
              from once_mono[OF r] rec have "w \<in> once st1" by blast
              from "12.IH"(4)[OF nn Some Source notin Suc r g upd w this] show ?thesis .
            qed
            show ?thesis
            proof (cases "exec fs m f body [] st")
              case (Inl e)
              with inner[symmetric] Suc notin Some Source fs'f act show ?thesis by simp
            next
              case (Inr st1)
              with inner[symmetric] outer[OF Inr] Suc notin Some Source fs'f act show ?thesis
                by simp
            qed
          qed
        qed
      qed
    qed
  qed
next
  case (9 fs n cur ls cs st)
  show ?case
  proof (cases cs)
    case Nil
    then show ?thesis by simp
  next
    case (Cons c cs')
    obtain b e where c: "c = (b, e)" by (cases c)
    show ?thesis
    proof (cases e)
      case True
      with Cons c show ?thesis by simp
    next
      case False
      from "9.IH"[OF Cons c[symmetric] False "9.prems"] Cons c False show ?thesis by simp
    qed
  qed
next
  case (10 fs n cur ls cs st)
  show ?case
  proof (cases cs)
    case Nil
    then show ?thesis by simp
  next
    case (Cons c cs')
    from "10.IH"[OF Cons "10.prems"] Cons show ?thesis by simp
  qed
qed (simp_all add: once_define_macro once_undef_macro)

section \<open>Reading the preamble\<close>

text \<open>
  The preamble read from any state, with the two headers it includes as parameters: the
  steps are those of its lines, in order.
\<close>

lemma exec_wrapper_h:
  assumes "fs ''Windows.h'' = Some (External W)"
    and "fs ''sdk/API/RainmeterAPI.h'' = Some (External R)"
  shows "exec fs n cur wrapper_h [] st =
    (let st1 = define_macro ''LIBRARY_EXPORTS'' '''' (st\<lparr>once := insert cur (once st)\<rparr>);
         st2 = (if macros st1 ''UNICODE'' = None then define_macro ''UNICODE'' '''' st1 else st1);
         st3 = (if macros st2 ''_UNICODE'' = None then define_macro ''_UNICODE'' '''' st2 else st2);
         st4 = define_macro ''WIN32_LEAN_AND_MEAN'' '''' st3;
         st5 = st4\<lparr>macros := W (macros st4), out := out st4 @ [Header ''Windows.h'' (macros st4)]\<rparr>
     in Inr (st5\<lparr>macros := R (macros st5),
                 out := out st5 @ [Header ''sdk/API/RainmeterAPI.h'' (macros st5)]\<rparr>))"
  using assms by (simp add: wrapper_h_def active_def Let_def)

lemma exec_wrapper_h_returns:
  assumes "fs ''Windows.h'' = Some (External W)"
    and "fs ''sdk/API/RainmeterAPI.h'' = Some (External R)"
  shows "\<exists>st'. exec fs n cur wrapper_h [] st = Inr st'"
  by (simp add: exec_wrapper_h[OF assms] Let_def)

text \<open>The second line of the preamble records it.\<close>

lemma wrapper_h_recorded:
  assumes "exec fs n cur wrapper_h [] st = Inr st'"
  shows "cur \<in> once st'"
proof -
  from assms have "exec fs n cur (tl (tl wrapper_h)) [] (st\<lparr>once := insert cur (once st)\<rparr>) = Inr st'"
    by (simp add: wrapper_h_def active_def)
  from once_mono[OF this] show ?thesis by simp
qed

lemma include_recorded:
  assumes "fs w = Some (Source b)" and "w \<in> once st"
  shows "exec fs n cur (Include k w # rest) cs st = exec fs n cur rest cs st"
  using assms by simp

text \<open>The example build has the files the theorems ask for.\<close>

lemma example_fs_windows: "example_fs ''Windows.h'' = Some (External example_windows)"
  by (simp add: example_fs_def)

lemma example_fs_sdk: "example_fs ''sdk/API/RainmeterAPI.h'' = Some (External example_sdk)"
  by (simp add: example_fs_def)

lemma example_fs_wrapper: "example_fs ''wrapper.h'' = Some (Source wrapper_h)"
  by (simp add: example_fs_def)

lemma example_fs_util:
  "example_fs ''util.h'' =
     Some (Source ([] @ Include Quote ''wrapper.h'' # [Text ''int helper(void);'']))"
  by (simp add: example_fs_def)

section \<open>The claims\<close>

text \<open>
  C1. Take a translation unit in which neither the export macro nor the character-set
  macros are defined when the preamble is read, and a platform header that does not
  undefine the export macro. Reading the preamble returns, the export macro is defined in
  the macro table the preamble hands to \<^verbatim>\<open>Windows.h\<close> and still defined in the table under
  which \<^verbatim>\<open>sdk/API/RainmeterAPI.h\<close> is read, so the vendor header's declarations are marked for
  export and not for import. The only diagnostic the preamble can add in such a unit is
  about the lean-header macro.
\<close>

theorem export_macro_defined_at_vendor_include:
  assumes "fs ''Windows.h'' = Some (External W)"
    and "fs ''sdk/API/RainmeterAPI.h'' = Some (External R)"
    and "macros st ''LIBRARY_EXPORTS'' = None"
    and "macros st ''UNICODE'' = None"
    and "macros st ''_UNICODE'' = None"
    and "\<And>m. m ''LIBRARY_EXPORTS'' \<noteq> None \<Longrightarrow> W m ''LIBRARY_EXPORTS'' \<noteq> None"
  shows "\<exists>st' m1 m2 ds.
      exec fs n cur wrapper_h [] st = Inr st' \<and>
      out st' = out st @ [Header ''Windows.h'' m1, Header ''sdk/API/RainmeterAPI.h'' m2] \<and>
      m1 ''LIBRARY_EXPORTS'' = Some '''' \<and>
      m2 ''LIBRARY_EXPORTS'' \<noteq> None \<and>
      vendor_linkage m2 = Export \<and>
      diags st' = diags st @ ds \<and>
      set ds \<subseteq> {Redefined ''WIN32_LEAN_AND_MEAN''}"
  using assms(3-6)
  by (simp add: exec_wrapper_h[OF assms(1,2)] Let_def define_macro_def vendor_linkage_def
           split: option.splits)

theorem export_macro_defined_at_vendor_include_witness:
  "example_fs ''Windows.h'' = Some (External example_windows) \<and>
   example_fs ''sdk/API/RainmeterAPI.h'' = Some (External example_sdk) \<and>
   macros clean_state ''LIBRARY_EXPORTS'' = None \<and>
   macros clean_state ''UNICODE'' = None \<and>
   macros clean_state ''_UNICODE'' = None \<and>
   (\<exists>st' m1 m2 ds.
      exec example_fs 0 ''wrapper.h'' wrapper_h [] clean_state = Inr st' \<and>
      out st' = out clean_state @ [Header ''Windows.h'' m1, Header ''sdk/API/RainmeterAPI.h'' m2] \<and>
      m1 ''LIBRARY_EXPORTS'' = Some '''' \<and>
      m2 ''LIBRARY_EXPORTS'' \<noteq> None \<and>
      vendor_linkage m2 = Export \<and>
      diags st' = diags clean_state @ ds \<and>
      set ds \<subseteq> {Redefined ''WIN32_LEAN_AND_MEAN''})"
proof -
  have h3: "macros clean_state ''LIBRARY_EXPORTS'' = None"
    and h4: "macros clean_state ''UNICODE'' = None"
    and h5: "macros clean_state ''_UNICODE'' = None"
    by (simp_all add: clean_state_def)
  have h6: "m ''LIBRARY_EXPORTS'' \<noteq> None \<Longrightarrow> example_windows m ''LIBRARY_EXPORTS'' \<noteq> None" for m
    by (simp add: example_windows_def)
  from export_macro_defined_at_vendor_include
         [OF example_fs_windows example_fs_sdk h3 h4 h5 h6, of 0 "''wrapper.h''"]
       example_fs_windows example_fs_sdk h3 h4 h5
  show ?thesis by blast
qed

text \<open>
  C2. From every prior state, the preamble leaves a character-set macro that is already
  defined with the replacement text it had, defines it (with empty replacement text) when
  it was not defined, and never redefines it: this holds for \<^verbatim>\<open>UNICODE\<close> and for
  \<^verbatim>\<open>_UNICODE\<close> in the macro table the preamble hands to the first header it includes.
\<close>

theorem charset_macros_defined_only_if_absent:
  assumes "fs ''Windows.h'' = Some (External W)"
    and "fs ''sdk/API/RainmeterAPI.h'' = Some (External R)"
  shows "\<exists>st' m1 m2 ds.
      exec fs n cur wrapper_h [] st = Inr st' \<and>
      out st' = out st @ [Header ''Windows.h'' m1, Header ''sdk/API/RainmeterAPI.h'' m2] \<and>
      m1 ''UNICODE'' = (case macros st ''UNICODE'' of None \<Rightarrow> Some '''' | Some b \<Rightarrow> Some b) \<and>
      m1 ''_UNICODE'' = (case macros st ''_UNICODE'' of None \<Rightarrow> Some '''' | Some b \<Rightarrow> Some b) \<and>
      diags st' = diags st @ ds \<and>
      Redefined ''UNICODE'' \<notin> set ds \<and> Redefined ''_UNICODE'' \<notin> set ds"
  by (simp add: exec_wrapper_h[OF assms] Let_def define_macro_def split: option.splits)

theorem charset_macros_defined_only_if_absent_witness:
  "example_fs ''Windows.h'' = Some (External example_windows) \<and>
   example_fs ''sdk/API/RainmeterAPI.h'' = Some (External example_sdk) \<and>
   (\<exists>st' m1 m2 ds.
      exec example_fs 0 ''wrapper.h'' wrapper_h [] predefined_state = Inr st' \<and>
      out st' = [Header ''Windows.h'' m1, Header ''sdk/API/RainmeterAPI.h'' m2] \<and>
      m1 ''UNICODE'' = Some ''1'' \<and> m1 ''_UNICODE'' = Some ''1'' \<and>
      diags st' = ds \<and>
      Redefined ''UNICODE'' \<notin> set ds \<and> Redefined ''_UNICODE'' \<notin> set ds)"
  using charset_macros_defined_only_if_absent
          [OF example_fs_windows example_fs_sdk, of 0 "''wrapper.h''" predefined_state]
  by (simp add: example_fs_windows example_fs_sdk predefined_state_def)

text \<open>
  C3. The export macro is defined without an existence check: from every prior state the
  macro table the preamble hands to the first header has \<^verbatim>\<open>LIBRARY_EXPORTS\<close> defined with
  empty replacement text, and a prior definition with another text is replaced and
  diagnosed, whereas the guarded character-set macros keep a prior definition and are never
  diagnosed. When the two included headers do not undefine it, the export macro is defined
  after the preamble has been read.
\<close>

theorem export_macro_unconditional:
  assumes "fs ''Windows.h'' = Some (External W)"
    and "fs ''sdk/API/RainmeterAPI.h'' = Some (External R)"
    and "\<And>m. m ''LIBRARY_EXPORTS'' \<noteq> None \<Longrightarrow> W m ''LIBRARY_EXPORTS'' \<noteq> None"
    and "\<And>m. m ''LIBRARY_EXPORTS'' \<noteq> None \<Longrightarrow> R m ''LIBRARY_EXPORTS'' \<noteq> None"
  shows "\<exists>st' m1 m2 ds.
      exec fs n cur wrapper_h [] st = Inr st' \<and>
      out st' = out st @ [Header ''Windows.h'' m1, Header ''sdk/API/RainmeterAPI.h'' m2] \<and>
      m1 ''LIBRARY_EXPORTS'' = Some '''' \<and>
      m1 ''UNICODE'' = (case macros st ''UNICODE'' of None \<Rightarrow> Some '''' | Some b \<Rightarrow> Some b) \<and>
      m1 ''_UNICODE'' = (case macros st ''_UNICODE'' of None \<Rightarrow> Some '''' | Some b \<Rightarrow> Some b) \<and>
      macros st' ''LIBRARY_EXPORTS'' \<noteq> None \<and>
      diags st' = diags st @ ds \<and>
      (Redefined ''LIBRARY_EXPORTS'' \<in> set ds) =
        (case macros st ''LIBRARY_EXPORTS'' of None \<Rightarrow> False | Some b \<Rightarrow> b \<noteq> '''') \<and>
      Redefined ''UNICODE'' \<notin> set ds \<and> Redefined ''_UNICODE'' \<notin> set ds"
  using assms(3,4)
  by (simp add: exec_wrapper_h[OF assms(1,2)] Let_def define_macro_def split: option.splits)

theorem export_macro_unconditional_witness:
  "example_fs ''Windows.h'' = Some (External example_windows) \<and>
   example_fs ''sdk/API/RainmeterAPI.h'' = Some (External example_sdk) \<and>
   (\<exists>st' m1 m2 ds.
      exec example_fs 0 ''wrapper.h'' wrapper_h [] predefined_state = Inr st' \<and>
      out st' = [Header ''Windows.h'' m1, Header ''sdk/API/RainmeterAPI.h'' m2] \<and>
      m1 ''LIBRARY_EXPORTS'' = Some '''' \<and>
      m1 ''UNICODE'' = Some ''1'' \<and> m1 ''_UNICODE'' = Some ''1'' \<and>
      macros st' ''LIBRARY_EXPORTS'' \<noteq> None \<and>
      diags st' = ds \<and>
      Redefined ''LIBRARY_EXPORTS'' \<in> set ds \<and>
      Redefined ''UNICODE'' \<notin> set ds \<and> Redefined ''_UNICODE'' \<notin> set ds)"
proof -
  have w: "m ''LIBRARY_EXPORTS'' \<noteq> None \<Longrightarrow> example_windows m ''LIBRARY_EXPORTS'' \<noteq> None" for m
    by (simp add: example_windows_def)
  have r: "m ''LIBRARY_EXPORTS'' \<noteq> None \<Longrightarrow> example_sdk m ''LIBRARY_EXPORTS'' \<noteq> None" for m
    by (simp add: example_sdk_def)
  from export_macro_unconditional
         [OF example_fs_windows example_fs_sdk w r, of 0 "''wrapper.h''" predefined_state]
  show ?thesis
    by (simp add: example_fs_windows example_fs_sdk predefined_state_def)
qed

text \<open>
  C4. A second inclusion of the preamble adds nothing, so it produces no macro-redefinition
  diagnostic. Whatever the translation unit and the state it has reached, once
  \<^verbatim>\<open>wrapper.h\<close> has been included in a region that is compiled, a later
  \<^verbatim>\<open>#include "wrapper.h"\<close> can be deleted without changing the outcome of preprocessing
  (the fatal error or the final state, diagnostics included): both when the second
  inclusion stands in the same file after any lines \<open>mid\<close> (directly), and when it stands
  in another source file \<open>g\<close> that is read later (transitively).
\<close>

theorem second_inclusion_adds_nothing:
  assumes src: "fs ''wrapper.h'' = Some (Source wrapper_h)"
    and act: "active cs"
  shows "exec fs n cur (Include k1 ''wrapper.h'' # mid @ Include k2 ''wrapper.h'' # post) cs st =
         exec fs n cur (Include k1 ''wrapper.h'' # mid @ post) cs st \<and>
    (fs g = Some (Source (xs @ Include k2 ''wrapper.h'' # ys)) \<and> g \<noteq> ''wrapper.h'' \<longrightarrow>
       exec fs n cur (Include k1 ''wrapper.h'' # mid) cs st =
       exec (fs(g \<mapsto> Source (xs @ ys))) n cur (Include k1 ''wrapper.h'' # mid) cs st)"
proof (rule conjI)
  show "exec fs n cur (Include k1 ''wrapper.h'' # mid @ Include k2 ''wrapper.h'' # post) cs st =
        exec fs n cur (Include k1 ''wrapper.h'' # mid @ post) cs st"
  proof (cases "''wrapper.h'' \<in> once st")
    case True
    with src act show ?thesis
      by (simp add: skip_recorded_include[where fs = fs and w = "''wrapper.h''", OF src])
  next
    case notin: False
    show ?thesis
    proof (cases n)
      case 0
      with notin src act show ?thesis by simp
    next
      case (Suc m)
      have "exec fs n cur (mid @ Include k2 ''wrapper.h'' # post) cs st1 =
            exec fs n cur (mid @ post) cs st1"
        if "exec fs m ''wrapper.h'' wrapper_h [] st = Inr st1" for st1
        by (rule skip_recorded_include[where fs = fs and w = "''wrapper.h''",
              OF src wrapper_h_recorded[OF that]])
      with Suc notin src act show ?thesis by (simp split: sum.splits)
    qed
  qed
next
  show "fs g = Some (Source (xs @ Include k2 ''wrapper.h'' # ys)) \<and> g \<noteq> ''wrapper.h'' \<longrightarrow>
       exec fs n cur (Include k1 ''wrapper.h'' # mid) cs st =
       exec (fs(g \<mapsto> Source (xs @ ys))) n cur (Include k1 ''wrapper.h'' # mid) cs st"
  proof (intro impI, elim conjE)
    let ?fs' = "fs(g \<mapsto> Source (xs @ ys))"
    assume g: "fs g = Some (Source (xs @ Include k2 ''wrapper.h'' # ys))"
      and ne: "g \<noteq> ''wrapper.h''"
    from src ne have src': "?fs' ''wrapper.h'' = Some (Source wrapper_h)" by simp
    have same: "exec fs j c ls cs' s = exec ?fs' j c ls cs' s"
      if "''wrapper.h'' \<in> once s" for j c ls cs' s
      by (rule skip_recorded_in_file[where fs = fs and w = "''wrapper.h''", OF g refl src that])
    show "exec fs n cur (Include k1 ''wrapper.h'' # mid) cs st =
          exec ?fs' n cur (Include k1 ''wrapper.h'' # mid) cs st"
    proof (cases "''wrapper.h'' \<in> once st")
      case True
      from same[OF True] show ?thesis .
    next
      case notin: False
      show ?thesis
      proof (cases n)
        case 0
        with notin src src' act show ?thesis by simp
      next
        case (Suc m)
        have body: "exec fs m ''wrapper.h'' wrapper_h [] st = exec ?fs' m ''wrapper.h'' wrapper_h [] st"
        proof -
          have "exec fs m ''wrapper.h'' wrapper_h [] st =
                exec fs m ''wrapper.h'' (tl (tl wrapper_h)) []
                  (st\<lparr>once := insert ''wrapper.h'' (once st)\<rparr>)"
            by (simp add: wrapper_h_def active_def)
          also have "\<dots> = exec ?fs' m ''wrapper.h'' (tl (tl wrapper_h)) []
                (st\<lparr>once := insert ''wrapper.h'' (once st)\<rparr>)"
            by (rule same) simp
          also have "\<dots> = exec ?fs' m ''wrapper.h'' wrapper_h [] st"
            by (simp add: wrapper_h_def active_def)
          finally show ?thesis .
        qed
        have rest: "exec fs n cur mid cs st1 = exec ?fs' n cur mid cs st1"
          if "exec fs m ''wrapper.h'' wrapper_h [] st = Inr st1" for st1
          by (rule same[OF wrapper_h_recorded[OF that]])
        show ?thesis
        proof (cases "exec fs m ''wrapper.h'' wrapper_h [] st")
          case (Inl e)
          with body[symmetric] Suc notin src src' act show ?thesis by simp
        next
          case (Inr st1)
          with body[symmetric] rest[OF Inr] Suc notin src src' act show ?thesis by simp
        qed
      qed
    qed
  qed
qed

theorem second_inclusion_adds_nothing_witness:
  "example_fs ''wrapper.h'' = Some (Source wrapper_h) \<and> active [] \<and>
   exec example_fs (Suc 0) ''plugin.c''
     (Include Quote ''wrapper.h'' # [Define ''LIBRARY_EXPORTS'' ''1'']
        @ Include Quote ''wrapper.h'' # [Text ''int x;'']) [] clean_state =
   exec example_fs (Suc 0) ''plugin.c''
     (Include Quote ''wrapper.h'' # [Define ''LIBRARY_EXPORTS'' ''1''] @ [Text ''int x;''])
     [] clean_state \<and>
   example_fs ''util.h'' =
     Some (Source ([] @ Include Quote ''wrapper.h'' # [Text ''int helper(void);''])) \<and>
   ''util.h'' \<noteq> ''wrapper.h'' \<and>
   exec example_fs (Suc 0) ''plugin.c''
     (Include Quote ''wrapper.h'' # [Include Quote ''util.h'']) [] clean_state =
   exec (example_fs(''util.h'' \<mapsto> Source ([] @ [Text ''int helper(void);''])))
     (Suc 0) ''plugin.c'' (Include Quote ''wrapper.h'' # [Include Quote ''util.h'']) []
     clean_state"
proof -
  have a: "active []" by (simp add: active_def)
  have ne: "''util.h'' \<noteq> ''wrapper.h''" by simp
  note direct = second_inclusion_adds_nothing
    [where fs = example_fs and cs = "[]" and n = "Suc 0" and cur = "''plugin.c''"
       and st = clean_state and ?k1.0 = Quote and ?k2.0 = Quote
       and mid = "[Define ''LIBRARY_EXPORTS'' ''1'']" and post = "[Text ''int x;'']",
     OF example_fs_wrapper a, THEN conjunct1]
  note transitive = second_inclusion_adds_nothing
    [where fs = example_fs and cs = "[]" and n = "Suc 0" and cur = "''plugin.c''"
       and st = clean_state and ?k1.0 = Quote and ?k2.0 = Quote
       and mid = "[Include Quote ''util.h'']" and g = "''util.h''" and xs = "[]"
       and ys = "[Text ''int helper(void);'']",
     OF example_fs_wrapper a, THEN conjunct2, rule_format, OF conjI, OF example_fs_util ne]
  from direct transitive example_fs_wrapper example_fs_util a ne
  show ?thesis by blast
qed

text \<open>
  C5. Prior definitions by the including code: whatever replacement texts the export macro
  and the character-set macros had before the preamble, reading the preamble returns a
  state and no fatal error. The last definition executed wins: for
  \<^verbatim>\<open>LIBRARY_EXPORTS\<close> that is the preamble's own (empty) one, and a prior definition with
  another text is diagnosed as a redefinition; for \<^verbatim>\<open>UNICODE\<close> and \<^verbatim>\<open>_UNICODE\<close> the guarded
  definition is not executed, so the including code's definition stays and nothing is
  diagnosed. The preamble adds nothing but macro-redefinition diagnostics, which are
  compile-time, and passes no program text of its own to the compiler: the output grows by
  the two headers only.
\<close>

theorem prior_definitions_last_wins:
  assumes "fs ''Windows.h'' = Some (External W)"
    and "fs ''sdk/API/RainmeterAPI.h'' = Some (External R)"
  shows "\<exists>st' m1 m2 ds.
      exec fs n cur wrapper_h [] st = Inr st' \<and>
      out st' = out st @ [Header ''Windows.h'' m1, Header ''sdk/API/RainmeterAPI.h'' m2] \<and>
      m1 ''LIBRARY_EXPORTS'' = Some '''' \<and>
      m1 ''UNICODE'' = (case macros st ''UNICODE'' of None \<Rightarrow> Some '''' | Some b \<Rightarrow> Some b) \<and>
      m1 ''_UNICODE'' = (case macros st ''_UNICODE'' of None \<Rightarrow> Some '''' | Some b \<Rightarrow> Some b) \<and>
      diags st' = diags st @ ds \<and>
      (Redefined ''LIBRARY_EXPORTS'' \<in> set ds) =
        (case macros st ''LIBRARY_EXPORTS'' of None \<Rightarrow> False | Some b \<Rightarrow> b \<noteq> '''') \<and>
      set ds \<subseteq> {Redefined ''LIBRARY_EXPORTS'', Redefined ''WIN32_LEAN_AND_MEAN''}"
  by (simp add: exec_wrapper_h[OF assms] Let_def define_macro_def split: option.splits)

theorem prior_definitions_last_wins_witness:
  "example_fs ''Windows.h'' = Some (External example_windows) \<and>
   example_fs ''sdk/API/RainmeterAPI.h'' = Some (External example_sdk) \<and>
   (\<exists>st' m1 m2 ds.
      exec example_fs 0 ''wrapper.h'' wrapper_h [] predefined_state = Inr st' \<and>
      out st' = [Header ''Windows.h'' m1, Header ''sdk/API/RainmeterAPI.h'' m2] \<and>
      m1 ''LIBRARY_EXPORTS'' = Some '''' \<and>
      m1 ''UNICODE'' = Some ''1'' \<and>
      m1 ''_UNICODE'' = Some ''1'' \<and>
      diags st' = ds \<and>
      Redefined ''LIBRARY_EXPORTS'' \<in> set ds \<and>
      set ds \<subseteq> {Redefined ''LIBRARY_EXPORTS'', Redefined ''WIN32_LEAN_AND_MEAN''})"
  using prior_definitions_last_wins
          [OF example_fs_windows example_fs_sdk, of 0 "''wrapper.h''" predefined_state]
  by (simp add: example_fs_windows example_fs_sdk predefined_state_def)

text \<open>
  C6. The lean-header macro is defined before the platform header is included: from every
  prior state, the macro table under which \<^verbatim>\<open>Windows.h\<close> is read has
  \<^verbatim>\<open>WIN32_LEAN_AND_MEAN\<close> defined, so the platform header exposes its reduced surface and
  not the full one.
\<close>

theorem lean_macro_defined_at_platform_include:
  assumes "fs ''Windows.h'' = Some (External W)"
    and "fs ''sdk/API/RainmeterAPI.h'' = Some (External R)"
  shows "\<exists>st' m1 m2.
      exec fs n cur wrapper_h [] st = Inr st' \<and>
      out st' = out st @ [Header ''Windows.h'' m1, Header ''sdk/API/RainmeterAPI.h'' m2] \<and>
      m1 ''WIN32_LEAN_AND_MEAN'' = Some '''' \<and>
      platform_surface m1 = Reduced"
  by (simp add: exec_wrapper_h[OF assms] Let_def define_macro_def platform_surface_def
           split: option.splits)

theorem lean_macro_defined_at_platform_include_witness:
  "example_fs ''Windows.h'' = Some (External example_windows) \<and>
   example_fs ''sdk/API/RainmeterAPI.h'' = Some (External example_sdk) \<and>
   (\<exists>st' m1 m2.
      exec example_fs 0 ''wrapper.h'' wrapper_h [] clean_state = Inr st' \<and>
      out st' = [Header ''Windows.h'' m1, Header ''sdk/API/RainmeterAPI.h'' m2] \<and>
      m1 ''WIN32_LEAN_AND_MEAN'' = Some '''' \<and>
      platform_surface m1 = Reduced)"
  using lean_macro_defined_at_platform_include
          [OF example_fs_windows example_fs_sdk, of 0 "''wrapper.h''" clean_state]
  by (simp add: example_fs_windows example_fs_sdk clean_state_def)

text \<open>
  C7. From every prior state, both character-set macros are defined in the macro table
  under which the platform header is read, so every entry point referred to by its
  unprefixed name is bound to its wide-character form (suffix W); a platform header that
  provides the wide-character entry points only is therefore enough.
\<close>

theorem entry_points_resolve_wide:
  assumes "fs ''Windows.h'' = Some (External W)"
    and "fs ''sdk/API/RainmeterAPI.h'' = Some (External R)"
  shows "\<exists>st' m1 m2.
      exec fs n cur wrapper_h [] st = Inr st' \<and>
      out st' = out st @ [Header ''Windows.h'' m1, Header ''sdk/API/RainmeterAPI.h'' m2] \<and>
      m1 ''UNICODE'' \<noteq> None \<and> m1 ''_UNICODE'' \<noteq> None \<and>
      entry_point m1 name = name @ ''W''"
  by (simp add: exec_wrapper_h[OF assms] Let_def define_macro_def entry_point_def
           split: option.splits)

theorem entry_points_resolve_wide_witness:
  "example_fs ''Windows.h'' = Some (External example_windows) \<and>
   example_fs ''sdk/API/RainmeterAPI.h'' = Some (External example_sdk) \<and>
   (\<exists>st' m1 m2.
      exec example_fs 0 ''wrapper.h'' wrapper_h [] clean_state = Inr st' \<and>
      out st' = [Header ''Windows.h'' m1, Header ''sdk/API/RainmeterAPI.h'' m2] \<and>
      m1 ''UNICODE'' \<noteq> None \<and> m1 ''_UNICODE'' \<noteq> None \<and>
      entry_point m1 ''GetModuleHandle'' = ''GetModuleHandleW'')"
  using entry_points_resolve_wide
          [OF example_fs_windows example_fs_sdk, of 0 "''wrapper.h''" clean_state
            "''GetModuleHandle''"]
  by (simp add: example_fs_windows example_fs_sdk clean_state_def)

text \<open>
  C8. The preamble has no line of program text (no type, variable or data declaration), and
  reading it, from every prior state, changes nothing but compile-time state: what reaches
  the compiler grows by the contents of the two included headers and by nothing else, the
  macro table becomes the one the two headers leave, the preamble is recorded as read, and
  the only diagnostics added are redefinitions of the two macros it defines unguarded.
\<close>

theorem preamble_contributes_only_macros_and_headers:
  assumes "fs ''Windows.h'' = Some (External W)"
    and "fs ''sdk/API/RainmeterAPI.h'' = Some (External R)"
  shows "filter (\<lambda>l. case l of Text s \<Rightarrow> True | _ \<Rightarrow> False) wrapper_h = [] \<and>
    (\<exists>st' m1 ds.
      exec fs n cur wrapper_h [] st = Inr st' \<and>
      out st' = out st @ [Header ''Windows.h'' m1, Header ''sdk/API/RainmeterAPI.h'' (W m1)] \<and>
      macros st' = R (W m1) \<and>
      once st' = insert cur (once st) \<and>
      diags st' = diags st @ ds \<and>
      set ds \<subseteq> {Redefined ''LIBRARY_EXPORTS'', Redefined ''WIN32_LEAN_AND_MEAN''})"
proof -
  have "filter (\<lambda>l. case l of Text s \<Rightarrow> True | _ \<Rightarrow> False) wrapper_h = []"
    by (simp add: wrapper_h_def)
  moreover have "\<exists>st' m1 ds.
      exec fs n cur wrapper_h [] st = Inr st' \<and>
      out st' = out st @ [Header ''Windows.h'' m1, Header ''sdk/API/RainmeterAPI.h'' (W m1)] \<and>
      macros st' = R (W m1) \<and>
      once st' = insert cur (once st) \<and>
      diags st' = diags st @ ds \<and>
      set ds \<subseteq> {Redefined ''LIBRARY_EXPORTS'', Redefined ''WIN32_LEAN_AND_MEAN''}"
    by (simp add: exec_wrapper_h[OF assms] Let_def define_macro_def split: option.splits)
  ultimately show ?thesis by (rule conjI)
qed

theorem preamble_contributes_only_macros_and_headers_witness:
  "example_fs ''Windows.h'' = Some (External example_windows) \<and>
   example_fs ''sdk/API/RainmeterAPI.h'' = Some (External example_sdk) \<and>
   (\<exists>st' m1 ds.
      exec example_fs 0 ''wrapper.h'' wrapper_h [] clean_state = Inr st' \<and>
      out st' = [Header ''Windows.h'' m1, Header ''sdk/API/RainmeterAPI.h'' (example_windows m1)] \<and>
      macros st' = example_sdk (example_windows m1) \<and>
      once st' = {''wrapper.h''} \<and>
      diags st' = ds \<and>
      set ds \<subseteq> {Redefined ''LIBRARY_EXPORTS'', Redefined ''WIN32_LEAN_AND_MEAN''})"
  using preamble_contributes_only_macros_and_headers
          [OF example_fs_windows example_fs_sdk, of 0 "''wrapper.h''" clean_state]
  by (simp add: example_fs_windows example_fs_sdk clean_state_def)

text \<open>
  C9. Inclusion of the preamble is idempotent. From every state, a first
  \<^verbatim>\<open>#include "wrapper.h"\<close> returns a state in which the preamble is recorded by its
  \<^verbatim>\<open>#pragma once\<close>; a second inclusion from that state, in any file and at any depth,
  leaves the whole state unchanged, so the body (the unguarded definitions and the two
  header inclusions) is read at most once, and two inclusions in a row give the same state
  as one.
\<close>

theorem inclusion_idempotent:
  assumes src: "fs ''wrapper.h'' = Some (Source wrapper_h)"
    and W: "fs ''Windows.h'' = Some (External W)"
    and R: "fs ''sdk/API/RainmeterAPI.h'' = Some (External R)"
  shows "\<exists>st1.
      exec fs (Suc n) cur [Include k ''wrapper.h''] [] st = Inr st1 \<and>
      ''wrapper.h'' \<in> once st1 \<and>
      exec fs n' cur' [Include k' ''wrapper.h''] [] st1 = Inr st1 \<and>
      exec fs (Suc n) cur [Include k ''wrapper.h'', Include k' ''wrapper.h''] [] st = Inr st1"
proof -
  have a: "active []" by (simp add: active_def)
  have again: "exec fs j c (Include k2 ''wrapper.h'' # rest) [] s = exec fs j c rest [] s"
    if "''wrapper.h'' \<in> once s" for j c k2 rest s
    using src that by (rule include_recorded)
  show ?thesis
  proof (cases "''wrapper.h'' \<in> once st")
    case True
    have "exec fs (Suc n) cur [Include k ''wrapper.h''] [] st = Inr st"
      by (simp only: again[OF True] exec_done)
    moreover have "exec fs n' cur' [Include k' ''wrapper.h''] [] st = Inr st"
      by (simp only: again[OF True] exec_done)
    moreover have "exec fs (Suc n) cur [Include k ''wrapper.h'', Include k' ''wrapper.h''] [] st = Inr st"
      by (simp only: again[OF True] exec_done)
    ultimately show ?thesis using True by blast
  next
    case False
    from exec_wrapper_h_returns[OF W R] obtain st1 where
      body: "exec fs n ''wrapper.h'' wrapper_h [] st = Inr st1" by blast
    from wrapper_h_recorded[OF body] have rec: "''wrapper.h'' \<in> once st1" .
    from src a False body
    have first: "exec fs (Suc n) cur (Include k ''wrapper.h'' # rest) [] st =
                 exec fs (Suc n) cur rest [] st1"
      for rest by simp
    have "exec fs (Suc n) cur [Include k ''wrapper.h''] [] st = Inr st1"
      by (simp only: first exec_done)
    moreover have "exec fs n' cur' [Include k' ''wrapper.h''] [] st1 = Inr st1"
      by (simp only: again[OF rec] exec_done)
    moreover have "exec fs (Suc n) cur [Include k ''wrapper.h'', Include k' ''wrapper.h''] [] st = Inr st1"
      by (simp only: first again[OF rec] exec_done)
    ultimately show ?thesis using rec by blast
  qed
qed

theorem inclusion_idempotent_witness:
  "example_fs ''wrapper.h'' = Some (Source wrapper_h) \<and>
   example_fs ''Windows.h'' = Some (External example_windows) \<and>
   example_fs ''sdk/API/RainmeterAPI.h'' = Some (External example_sdk) \<and>
   (\<exists>st1.
      exec example_fs (Suc 0) ''plugin.c'' [Include Quote ''wrapper.h''] [] clean_state = Inr st1 \<and>
      ''wrapper.h'' \<in> once st1 \<and>
      exec example_fs (Suc 0) ''plugin.c'' [Include Quote ''wrapper.h''] [] st1 = Inr st1 \<and>
      exec example_fs (Suc 0) ''plugin.c'' [Include Quote ''wrapper.h'', Include Quote ''wrapper.h''] []
        clean_state = Inr st1)"
  using inclusion_idempotent[OF example_fs_wrapper example_fs_windows example_fs_sdk,
      of 0 "''plugin.c''" Quote clean_state "Suc 0" "''plugin.c''" Quote]
    example_fs_wrapper example_fs_windows example_fs_sdk
  by blast

text \<open>
  C10. The lean-header macro is defined without an existence check, like the export macro
  and unlike the character-set macros: from every prior state the macro table the preamble
  hands to the first header has \<^verbatim>\<open>WIN32_LEAN_AND_MEAN\<close> defined with empty replacement text,
  and a prior definition with another text is not preserved but replaced, which is
  diagnosed as a redefinition. When the two included headers do not undefine it, it is
  defined after the preamble has been read.
\<close>

theorem lean_macro_unconditional:
  assumes "fs ''Windows.h'' = Some (External W)"
    and "fs ''sdk/API/RainmeterAPI.h'' = Some (External R)"
    and "\<And>m. m ''WIN32_LEAN_AND_MEAN'' \<noteq> None \<Longrightarrow> W m ''WIN32_LEAN_AND_MEAN'' \<noteq> None"
    and "\<And>m. m ''WIN32_LEAN_AND_MEAN'' \<noteq> None \<Longrightarrow> R m ''WIN32_LEAN_AND_MEAN'' \<noteq> None"
  shows "\<exists>st' m1 m2 ds.
      exec fs n cur wrapper_h [] st = Inr st' \<and>
      out st' = out st @ [Header ''Windows.h'' m1, Header ''sdk/API/RainmeterAPI.h'' m2] \<and>
      m1 ''WIN32_LEAN_AND_MEAN'' = Some '''' \<and>
      macros st' ''WIN32_LEAN_AND_MEAN'' \<noteq> None \<and>
      diags st' = diags st @ ds \<and>
      (Redefined ''WIN32_LEAN_AND_MEAN'' \<in> set ds) =
        (case macros st ''WIN32_LEAN_AND_MEAN'' of None \<Rightarrow> False | Some b \<Rightarrow> b \<noteq> '''')"
  using assms(3,4)
  by (simp add: exec_wrapper_h[OF assms(1,2)] Let_def define_macro_def split: option.splits)

theorem lean_macro_unconditional_witness:
  "example_fs ''Windows.h'' = Some (External example_windows) \<and>
   example_fs ''sdk/API/RainmeterAPI.h'' = Some (External example_sdk) \<and>
   (\<exists>st' m1 m2 ds.
      exec example_fs 0 ''wrapper.h'' wrapper_h [] predefined_state = Inr st' \<and>
      out st' = [Header ''Windows.h'' m1, Header ''sdk/API/RainmeterAPI.h'' m2] \<and>
      m1 ''WIN32_LEAN_AND_MEAN'' = Some '''' \<and>
      macros st' ''WIN32_LEAN_AND_MEAN'' \<noteq> None \<and>
      diags st' = ds \<and>
      Redefined ''WIN32_LEAN_AND_MEAN'' \<in> set ds)"
proof -
  have w: "m ''WIN32_LEAN_AND_MEAN'' \<noteq> None \<Longrightarrow> example_windows m ''WIN32_LEAN_AND_MEAN'' \<noteq> None" for m
    by (simp add: example_windows_def)
  have r: "m ''WIN32_LEAN_AND_MEAN'' \<noteq> None \<Longrightarrow> example_sdk m ''WIN32_LEAN_AND_MEAN'' \<noteq> None" for m
    by (simp add: example_sdk_def)
  from lean_macro_unconditional
         [OF example_fs_windows example_fs_sdk w r, of 0 "''wrapper.h''" predefined_state]
  show ?thesis
    by (simp add: example_fs_windows example_fs_sdk predefined_state_def)
qed

end
